theory Spec2Isabelle
  imports Main
begin

section \<open>log4go: levels, filters and the dispatch of log records\<close>

text \<open>
  A shallow embedding of \<^verbatim>\<open>vendor/github.com/JFrogDev/log4go/log4go.go\<close>.

  \<^item> A \<^verbatim>\<open>Level\<close> is a Go \<^verbatim>\<open>int\<close>. The code only compares levels and uses one as an
    index; it never computes with them, so the width of the machine integer plays no
    role and a level is an \<open>int\<close>.
  \<^item> A \<^verbatim>\<open>Logger\<close> is its map from names to filters. The loggers are those the package
    makes (\<^verbatim>\<open>NewLogger\<close>): the map is allocated and every filter holds a writer.
  \<^item> A \<^verbatim>\<open>LogWriter\<close> is an interface implemented elsewhere; a writer is a handle of an
    arbitrary type \<open>'w\<close>, and the calls made on it are recorded.
  \<^item> Every method of \<^verbatim>\<open>*Logger\<close> that runs statements returns the list of calls it made
    to its collaborators (the mutex, \<^verbatim>\<open>fmt\<close>, \<^verbatim>\<open>runtime\<close>, \<^verbatim>\<open>time\<close>, closures, writers), in
    program order, and the logger afterwards. One goroutine runs at a time.
  \<^item> What the collaborators answer is given by an environment: the two \<^verbatim>\<open>fmt\<close>
    functions, the call stack, the clock, and the order in which each \<^verbatim>\<open>range\<close> over the
    map visits its keys (Go leaves that order open). Writers, closures and \<^verbatim>\<open>fmt\<close> return
    when called.
\<close>

subsection \<open>Levels\<close>

type_synonym Level = int

definition FINEST :: Level where "FINEST = 0"
definition FINE :: Level where "FINE = 1"
definition DEBUG :: Level where "DEBUG = 2"
definition TRACE :: Level where "TRACE = 3"
definition INFO :: Level where "INFO = 4"
definition WARNING :: Level where "WARNING = 5"
definition ERROR :: Level where "ERROR = 6"
definition CRITICAL :: Level where "CRITICAL = 7"

definition levelStrings :: "string list" where
  "levelStrings = [''FNST'', ''FINE'', ''DEBG'', ''TRAC'', ''INFO'', ''WARN'', ''EROR'', ''CRIT'']"

text \<open>Indexing an array outside its bounds is a run-time panic.\<close>

datatype panic = IndexOutOfRange int nat

definition index :: "'a list \<Rightarrow> int \<Rightarrow> panic + 'a" where
  "index xs i =
     (if 0 \<le> i \<and> i < int (length xs) then Inr (xs ! nat i)
      else Inl (IndexOutOfRange i (length xs)))"

definition Level_String :: "Level \<Rightarrow> panic + string" where
  "Level_String l =
     (if l < 0 \<or> l > int (length levelStrings) then Inr ''UNKNOWN''
      else index levelStrings l)"

subsection \<open>Values, records, filters, loggers\<close>

text \<open>
  A closure of type \<^verbatim>\<open>func() string\<close>: what it returns when called, and how \<^verbatim>\<open>%v\<close>
  prints the function value itself (its address).
\<close>

datatype closure = Closure (addr: string) (result: string)

text \<open>
  A value of type \<^verbatim>\<open>interface{}\<close>, as the type switches of the code see it: a string, a
  \<^verbatim>\<open>func() string\<close>, or anything else: \<^verbatim>\<open>nil\<close>, or a value of any other type, given by
  the name of its type (what \<^verbatim>\<open>%T\<close> prints) and its default rendering (what \<^verbatim>\<open>%v\<close>
  prints).
\<close>

datatype val = VString string | VFunc closure | VNil | VOther string string

record LogRecord =
  RecLevel :: Level
  Created :: nat
  Source :: string
  Message :: string

record 'w Filter =
  Level :: Level
  LogWriter :: 'w

record 'w Logger =
  Filters :: "string \<rightharpoonup> 'w Filter"

datatype error = errors_New (error_Error: string)

subsection \<open>Calls to collaborators\<close>

datatype 'w event =
    RLock | RUnlock | Lock | Unlock
  | Caller nat
  | Sprintf string "val list"
  | Sprint val
  | Call closure
  | Now
  | LogWrite string 'w LogRecord
  | CloseWriter string 'w

text \<open>
  \<open>Caller n\<close> stands for lines 247 to 252 (and 271 to 275): \<^verbatim>\<open>runtime.Caller(n)\<close> and, when
  it reports ok, the rendering of function name and line number as the source string.
  \<open>Sprintf\<close> and \<open>Sprint\<close> are the calls of \<^verbatim>\<open>fmt.Sprintf\<close> and \<^verbatim>\<open>fmt.Sprint\<close> that build a
  message. \<open>LogWrite name w rec\<close> and \<open>CloseWriter name w\<close> are \<^verbatim>\<open>filt.LogWrite(rec)\<close> and
  \<^verbatim>\<open>filt.Close()\<close> on the filter stored under \<open>name\<close>, whose writer is \<open>w\<close>.
\<close>

record env =
  fmt_Sprintf :: "string \<Rightarrow> val list \<Rightarrow> string"
  fmt_Sprint :: "val \<Rightarrow> string"
  runtime_Caller :: "nat \<Rightarrow> string option"
  time_Now :: nat
  range_shouldSkip :: "string list"
  range_dispatch :: "string list"

text \<open>
  A \<^verbatim>\<open>range\<close> over the map visits every key once, in some order; \<open>ranges e log\<close> says
  that the two orders of \<open>e\<close> are such orders for the map of \<open>log\<close>.
\<close>

definition range_of :: "string list \<Rightarrow> 'w Logger \<Rightarrow> bool" where
  "range_of names log = (distinct names \<and> set names = dom (Filters log))"

definition ranges :: "env \<Rightarrow> 'w Logger \<Rightarrow> bool" where
  "ranges e log = (range_of (range_shouldSkip e) log \<and> range_of (range_dispatch e) log)"

subsection \<open>The logger\<close>

definition NewLogger :: "'w Logger" where
  "NewLogger = \<lparr>Filters = Map.empty\<rparr>"

text \<open>
  The loop of \<^verbatim>\<open>Close\<close>. A key that is no longer in the map when its turn comes is not
  produced by \<^verbatim>\<open>range\<close>.
\<close>

fun Close_loop :: "string list \<Rightarrow> 'w Logger \<Rightarrow> 'w event list \<times> 'w Logger" where
  "Close_loop [] log = ([], log)"
| "Close_loop (name # names) log =
     (case Filters log name of
        None \<Rightarrow> Close_loop names log
      | Some filt \<Rightarrow>
          (let (es, log') = Close_loop names (log\<lparr>Filters := (Filters log)(name := None)\<rparr>)
           in (CloseWriter name (LogWriter filt) # es, log')))"

definition Close :: "string list \<Rightarrow> 'w Logger \<Rightarrow> 'w event list \<times> 'w Logger" where
  "Close names log =
     (let (es, log') = Close_loop names log in (Lock # es @ [Unlock], log'))"

definition AddFilter :: "string \<Rightarrow> Level \<Rightarrow> 'w \<Rightarrow> 'w Logger \<Rightarrow> 'w event list \<times> 'w Logger" where
  "AddFilter name lvl writer log =
     ([], log\<lparr>Filters := (Filters log)(name \<mapsto> \<lparr>Level = lvl, LogWriter = writer\<rparr>)\<rparr>)"

fun shouldSkip :: "Level \<Rightarrow> string list \<Rightarrow> 'w Logger \<Rightarrow> bool" where
  "shouldSkip lvl [] log = True"
| "shouldSkip lvl (name # names) log =
     (case Filters log name of
        None \<Rightarrow> shouldSkip lvl names log
      | Some filt \<Rightarrow> if lvl \<ge> Level filt then False else shouldSkip lvl names log)"

fun dispatchLogsForLogRecord ::
    "Level \<Rightarrow> LogRecord \<Rightarrow> string list \<Rightarrow> 'w Logger \<Rightarrow> 'w event list \<times> 'w Logger" where
  "dispatchLogsForLogRecord lvl rec [] log = ([], log)"
| "dispatchLogsForLogRecord lvl rec (name # names) log =
     (case Filters log name of
        None \<Rightarrow> dispatchLogsForLogRecord lvl rec names log
      | Some filt \<Rightarrow>
          if lvl < Level filt then dispatchLogsForLogRecord lvl rec names log
          else (let (es, log') = dispatchLogsForLogRecord lvl rec names log
                in (LogWrite name (LogWriter filt) rec # es, log')))"

definition dispatchLogsForSourceAndMessage ::
    "env \<Rightarrow> Level \<Rightarrow> string \<Rightarrow> string \<Rightarrow> 'w Logger \<Rightarrow> 'w event list \<times> 'w Logger" where
  "dispatchLogsForSourceAndMessage e lvl source message log =
     (let rec = \<lparr>RecLevel = lvl, Created = time_Now e, Source = source, Message = message\<rparr>;
          (es, log') = dispatchLogsForLogRecord lvl rec (range_dispatch e) log
      in (Now # es, log'))"

definition caller_source :: "env \<Rightarrow> nat \<Rightarrow> string" where
  "caller_source e n = (case runtime_Caller e n of None \<Rightarrow> '''' | Some src \<Rightarrow> src)"

definition intLogf ::
    "env \<Rightarrow> Level \<Rightarrow> string \<Rightarrow> val list \<Rightarrow> 'w Logger \<Rightarrow> 'w event list \<times> 'w Logger" where
  "intLogf e lvl format args log =
     (if shouldSkip lvl (range_shouldSkip e) log then ([RLock, RUnlock], log)
      else
        (let src = caller_source e 3;
             (fs, msg) = (if length args > 0
                          then ([Sprintf format args], fmt_Sprintf e format args)
                          else ([], format));
             (es, log') = dispatchLogsForSourceAndMessage e lvl src msg log
         in (RLock # Caller 3 # fs @ es @ [RUnlock], log')))"

definition intLogc ::
    "env \<Rightarrow> Level \<Rightarrow> closure \<Rightarrow> 'w Logger \<Rightarrow> 'w event list \<times> 'w Logger" where
  "intLogc e lvl closure log =
     (if shouldSkip lvl (range_shouldSkip e) log then ([RLock, RUnlock], log)
      else
        (let src = caller_source e 2;
             (es, log') = dispatchLogsForSourceAndMessage e lvl src (result closure) log
         in (RLock # Caller 2 # Call closure # es @ [RUnlock], log')))"

definition Log ::
    "env \<Rightarrow> Level \<Rightarrow> string \<Rightarrow> string \<Rightarrow> 'w Logger \<Rightarrow> 'w event list \<times> 'w Logger" where
  "Log e lvl source message log =
     (if shouldSkip lvl (range_shouldSkip e) log then ([RLock, RUnlock], log)
      else
        (let (es, log') = dispatchLogsForSourceAndMessage e lvl source message log
         in (RLock # es @ [RUnlock], log')))"

definition Logf ::
    "env \<Rightarrow> Level \<Rightarrow> string \<Rightarrow> val list \<Rightarrow> 'w Logger \<Rightarrow> 'w event list \<times> 'w Logger" where
  "Logf e lvl format args log = intLogf e lvl format args log"

definition Logc ::
    "env \<Rightarrow> Level \<Rightarrow> closure \<Rightarrow> 'w Logger \<Rightarrow> 'w event list \<times> 'w Logger" where
  "Logc e lvl closure log = intLogc e lvl closure log"

definition strings_Repeat :: "string \<Rightarrow> nat \<Rightarrow> string" where
  "strings_Repeat s count = concat (replicate count s)"

definition upToInfo ::
    "env \<Rightarrow> Level \<Rightarrow> val \<Rightarrow> val list \<Rightarrow> 'w Logger \<Rightarrow> 'w event list \<times> 'w Logger" where
  "upToInfo e lvl arg0 args log =
     (case arg0 of
        VString first \<Rightarrow> intLogf e lvl first args log
      | VFunc first \<Rightarrow> intLogc e lvl first log
      | _ \<Rightarrow>
          (let (es, log') =
                 intLogf e lvl (fmt_Sprint e arg0 @ strings_Repeat '' %v'' (length args)) args log
           in (Sprint arg0 # es, log')))"

definition Finest :: "env \<Rightarrow> val \<Rightarrow> val list \<Rightarrow> 'w Logger \<Rightarrow> 'w event list \<times> 'w Logger" where
  "Finest e arg0 args log = upToInfo e FINEST arg0 args log"

definition Fine :: "env \<Rightarrow> val \<Rightarrow> val list \<Rightarrow> 'w Logger \<Rightarrow> 'w event list \<times> 'w Logger" where
  "Fine e arg0 args log = upToInfo e FINE arg0 args log"

definition Debug :: "env \<Rightarrow> val \<Rightarrow> val list \<Rightarrow> 'w Logger \<Rightarrow> 'w event list \<times> 'w Logger" where
  "Debug e arg0 args log = upToInfo e DEBUG arg0 args log"

definition Trace :: "env \<Rightarrow> val \<Rightarrow> val list \<Rightarrow> 'w Logger \<Rightarrow> 'w event list \<times> 'w Logger" where
  "Trace e arg0 args log = upToInfo e TRACE arg0 args log"

definition Info :: "env \<Rightarrow> val \<Rightarrow> val list \<Rightarrow> 'w Logger \<Rightarrow> 'w event list \<times> 'w Logger" where
  "Info e arg0 args log = upToInfo e INFO arg0 args log"

text \<open>\<open>overWarning\<close> returns the error, the calls made, and the logger.\<close>

definition overWarning ::
    "env \<Rightarrow> Level \<Rightarrow> val \<Rightarrow> val list \<Rightarrow> 'w Logger \<Rightarrow> error \<times> 'w event list \<times> 'w Logger" where
  "overWarning e lvl arg0 args log =
     (let (fs, msg) =
            (case arg0 of
               VString first \<Rightarrow> ([Sprintf first args], fmt_Sprintf e first args)
             | VFunc first \<Rightarrow> ([Call first], result first)
             | _ \<Rightarrow>
                 (let format = fmt_Sprint e arg0 @ strings_Repeat '' %v'' (length args)
                  in ([Sprint arg0, Sprintf format args], fmt_Sprintf e format args)));
          (es, log') = intLogf e lvl msg [] log
      in (errors_New msg, fs @ es, log'))"

definition Warn :: "env \<Rightarrow> val \<Rightarrow> val list \<Rightarrow> 'w Logger \<Rightarrow> error \<times> 'w event list \<times> 'w Logger" where
  "Warn e arg0 args log = overWarning e WARNING arg0 args log"

definition Error :: "env \<Rightarrow> val \<Rightarrow> val list \<Rightarrow> 'w Logger \<Rightarrow> error \<times> 'w event list \<times> 'w Logger" where
  "Error e arg0 args log = overWarning e ERROR arg0 args log"

definition Critical :: "env \<Rightarrow> val \<Rightarrow> val list \<Rightarrow> 'w Logger \<Rightarrow> error \<times> 'w event list \<times> 'w Logger" where
  "Critical e arg0 args log = overWarning e CRITICAL arg0 args log"

subsection \<open>The part of \<^verbatim>\<open>fmt\<close> that the messages above depend on\<close>

text \<open>
  \<^verbatim>\<open>fmt\<close> is Go's library, not code of this package; the logger takes its two functions
  from the environment. Where a statement is about the text of a message, it needs
  what Go's \<^verbatim>\<open>fmt.Sprintf\<close> does with a format. \<open>go_Sprintf\<close> follows the documentation
  of \<^verbatim>\<open>fmt\<close> on these formats:
  \<^item> bytes other than the percent sign are copied;
  \<^item> \<^verbatim>\<open>%v\<close> prints the next operand in its default format, \<^verbatim>\<open>%d\<close> an operand of an
    integer type in decimal, \<^verbatim>\<open>%s\<close> a string; \<^verbatim>\<open>%d\<close> on a string and \<^verbatim>\<open>%s\<close> on an integer
    print \<^verbatim>\<open>%!d(string=...)\<close> and \<^verbatim>\<open>%!s(int=...)\<close>; with no operand left each of the three
    prints \<^verbatim>\<open>%!v(MISSING)\<close>, with its own letter;
  \<^item> a percent sign, flags or none, and a percent sign print one percent sign and take
    no operand;
  \<^item> a format that ends after a percent sign and its flags gets \<^verbatim>\<open>%!(NOVERB)\<close>;
  \<^item> operands left over at the end are reported as \<^verbatim>\<open>%!(EXTRA type=value, ...)\<close>.

  At any other directive (flags before a letter, widths, precisions, argument indexes,
  other verbs, other operands) the rest of the output is what the parameter \<open>other\<close>
  makes of the rest of the format and the operands left.
\<close>

fun go_Sprint :: "val \<Rightarrow> string" where
  "go_Sprint (VString s) = s"
| "go_Sprint (VFunc c) = addr c"
| "go_Sprint VNil = ''<nil>''"
| "go_Sprint (VOther t r) = r"

fun go_extra_arg :: "val \<Rightarrow> string" where
  "go_extra_arg (VString s) = ''string='' @ s"
| "go_extra_arg (VFunc c) = ''func() string='' @ addr c"
| "go_extra_arg VNil = ''<nil>''"
| "go_extra_arg (VOther t r) = t @ ''='' @ r"

fun go_comma_sep :: "string list \<Rightarrow> string" where
  "go_comma_sep [] = []"
| "go_comma_sep [s] = s"
| "go_comma_sep (s # ss) = s @ '', '' @ go_comma_sep ss"

definition go_extra :: "val list \<Rightarrow> string" where
  "go_extra args =
     (if args = [] then [] else ''%!(EXTRA '' @ go_comma_sep (map go_extra_arg args) @ '')'')"

definition go_flag :: "char \<Rightarrow> bool" where
  "go_flag c = (c \<in> set ''#0+- '')"

definition go_integer_type :: "string \<Rightarrow> bool" where
  "go_integer_type t =
     (t \<in> set [''int'', ''int8'', ''int16'', ''int32'', ''int64'',
                ''uint'', ''uint8'', ''uint16'', ''uint32'', ''uint64''])"

text \<open>One operand under one verb, without flags; \<open>None\<close> where this is left to \<open>other\<close>.\<close>

fun go_printArg :: "char \<Rightarrow> val \<Rightarrow> string option" where
  "go_printArg verb (VString s) =
     (if verb = CHR ''v'' \<or> verb = CHR ''s'' then Some s
      else if verb = CHR ''d'' then Some (''%!d(string='' @ s @ '')'')
      else None)"
| "go_printArg verb (VOther t r) =
     (if verb = CHR ''v'' then Some r
      else if verb = CHR ''d'' \<and> go_integer_type t then Some r
      else if verb = CHR ''s'' \<and> go_integer_type t then Some (''%!s('' @ t @ ''='' @ r @ '')'')
      else None)"
| "go_printArg verb a = (if verb = CHR ''v'' then Some (go_Sprint a) else None)"

function go_Sprintf :: "(string \<Rightarrow> val list \<Rightarrow> string) \<Rightarrow> string \<Rightarrow> val list \<Rightarrow> string" where
  "go_Sprintf other [] args = go_extra args"
| "go_Sprintf other (c # format) args =
     (if c \<noteq> CHR ''%'' then c # go_Sprintf other format args
      else
        (case dropWhile go_flag format of
           [] \<Rightarrow> ''%!(NOVERB)'' @ go_extra args
         | verb # rest \<Rightarrow>
             if verb = CHR ''%'' then CHR ''%'' # go_Sprintf other rest args
             else if takeWhile go_flag format \<noteq> [] then other (c # format) args
             else
               (case args of
                  [] \<Rightarrow>
                    if verb = CHR ''v'' \<or> verb = CHR ''d'' \<or> verb = CHR ''s''
                    then ''%!'' @ [verb] @ ''(MISSING)'' @ go_Sprintf other rest []
                    else other (c # format) args
                | a # as \<Rightarrow>
                    (case go_printArg verb a of
                       None \<Rightarrow> other (c # format) args
                     | Some s \<Rightarrow> s @ go_Sprintf other rest as))))"
  by pat_completeness auto
termination
proof (relation "measure (\<lambda>(other, format, args). length format)")
  show "wf (measure (\<lambda>(other, format, args). length format))" by simp
next
  fix other :: "string \<Rightarrow> val list \<Rightarrow> string" and c :: char and format :: string
    and args :: "val list"
  show "((other, format, args), (other, c # format, args))
          \<in> measure (\<lambda>(other, format, args). length format)"
    by simp
next
  fix other :: "string \<Rightarrow> val list \<Rightarrow> string" and c verb :: char and format rest :: string
    and args :: "val list"
  assume "dropWhile go_flag format = verb # rest"
  then have "length rest < length (dropWhile go_flag format)" by simp
  also have "\<dots> \<le> length format" by (rule length_dropWhile_le)
  finally show "((other, rest, args), (other, c # format, args))
          \<in> measure (\<lambda>(other, format, args). length format)"
    by simp
next
  fix other :: "string \<Rightarrow> val list \<Rightarrow> string" and c verb :: char and format rest :: string
    and args :: "val list"
  assume "dropWhile go_flag format = verb # rest"
  then have "length rest < length (dropWhile go_flag format)" by simp
  also have "\<dots> \<le> length format" by (rule length_dropWhile_le)
  finally show "((other, rest, []), (other, c # format, args))
          \<in> measure (\<lambda>(other, format, args). length format)"
    by simp
next
  fix other :: "string \<Rightarrow> val list \<Rightarrow> string" and c verb :: char and format rest :: string
    and args as :: "val list"
  assume "dropWhile go_flag format = verb # rest"
  then have "length rest < length (dropWhile go_flag format)" by simp
  also have "\<dots> \<le> length format" by (rule length_dropWhile_le)
  finally show "((other, rest, as), (other, c # format, args))
          \<in> measure (\<lambda>(other, format, args). length format)"
    by simp
qed

subsection \<open>What the statements below count and compare\<close>

text \<open>Some filter of the logger has a threshold at or below the level.\<close>

definition accepted :: "'w Logger \<Rightarrow> Level \<Rightarrow> bool" where
  "accepted log lvl = (\<exists>name filt. Filters log name = Some filt \<and> Level filt \<le> lvl)"

text \<open>
  \<open>formatted\<close> counts the calls that produce the text of a message: a \<^verbatim>\<open>fmt.Sprintf\<close>,
  or the call of a closure. \<open>records_made\<close> counts the records made: a \<^verbatim>\<open>LogRecord\<close> is
  made exactly where the clock is read. Whether a record reaches a writer is not
  counted here: \<open>written\<close> lists the records passed to writers, and \<open>on_filter name\<close>
  picks the calls of \<^verbatim>\<open>LogWrite\<close> on the filter stored under \<open>name\<close>.
\<close>

fun is_Sprintf :: "'w event \<Rightarrow> bool" where
  "is_Sprintf (Sprintf format args) = True"
| "is_Sprintf _ = False"

fun is_Call :: "'w event \<Rightarrow> bool" where
  "is_Call (Call c) = True"
| "is_Call _ = False"

definition formatted :: "'w event list \<Rightarrow> nat" where
  "formatted es = length (filter (\<lambda>ev. is_Sprintf ev \<or> is_Call ev) es)"

definition records_made :: "'w event list \<Rightarrow> nat" where
  "records_made es = length (filter (\<lambda>ev. ev = Now) es)"

fun on_filter :: "string \<Rightarrow> 'w event \<Rightarrow> bool" where
  "on_filter name (LogWrite n w rec) = (n = name)"
| "on_filter name ev = False"

fun written :: "'w event list \<Rightarrow> LogRecord list" where
  "written [] = []"
| "written (LogWrite name w rec # es) = rec # written es"
| "written (ev # es) = written es"

text \<open>
  The message that the documentation of \<^verbatim>\<open>Debug\<close> gives for a first argument that is
  neither a string nor a closure: each argument in its default format, separated by
  spaces.
\<close>

definition joined :: "env \<Rightarrow> val \<Rightarrow> val list \<Rightarrow> string" where
  "joined e arg0 args = fmt_Sprint e arg0 @ concat (map (\<lambda>a. '' '' @ fmt_Sprint e a) args)"

subsection \<open>A run of the program\<close>

text \<open>
  An environment whose \<^verbatim>\<open>fmt.Sprintf\<close> is Go's on the formats described above and is
  left unspecified beyond them, with a caller, a clock, and one order for both loops;
  and the logger of
  \<^verbatim>\<open>NewLogger().AddFilter("a", DEBUG, 1).AddFilter("b", ERROR, 2)\<close>, with writers 1 and 2.
\<close>

definition go_env :: "string list \<Rightarrow> env" where
  "go_env names =
     \<lparr>fmt_Sprintf = go_Sprintf (\<lambda>format args. undefined), fmt_Sprint = go_Sprint,
      runtime_Caller = (\<lambda>n. Some ''main.main:42''), time_Now = 7,
      range_shouldSkip = names, range_dispatch = names\<rparr>"

definition logger_ab :: "nat Logger" where
  "logger_ab = snd (AddFilter ''b'' ERROR 2 (snd (AddFilter ''a'' DEBUG 1 NewLogger)))"

section \<open>What each method does, in closed form\<close>

lemma shouldSkip_iff:
  "shouldSkip lvl names log \<longleftrightarrow>
     \<not> (\<exists>name \<in> set names. \<exists>filt. Filters log name = Some filt \<and> Level filt \<le> lvl)"
  by (induction names) (auto split: option.splits)

lemma shouldSkip_accepted:
  "set names = dom (Filters log) \<Longrightarrow> shouldSkip lvl names log \<longleftrightarrow> \<not> accepted log lvl"
  unfolding shouldSkip_iff accepted_def by blast

lemma shouldSkip_ranges: "ranges e log \<Longrightarrow> shouldSkip lvl (range_shouldSkip e) log \<longleftrightarrow> \<not> accepted log lvl"
  by (simp add: ranges_def range_of_def shouldSkip_accepted)

lemma dispatch_snd: "snd (dispatchLogsForLogRecord lvl rec names log) = log"
  by (induction names) (simp_all add: case_prod_beta Let_def split: option.splits)

lemma dispatch_mem:
  "ev \<in> set (fst (dispatchLogsForLogRecord lvl rec names log)) \<longleftrightarrow>
     (\<exists>name filt. name \<in> set names \<and> Filters log name = Some filt \<and> Level filt \<le> lvl \<and>
        ev = LogWrite name (LogWriter filt) rec)"
proof (induction names)
  case Nil
  show ?case by simp
next
  case (Cons n names)
  show ?case
  proof (cases "Filters log n")
    case None
    then show ?thesis using Cons by auto
  next
    case (Some f)
    then show ?thesis using Cons by (auto simp: case_prod_beta Let_def)
  qed
qed

lemma dispatch_filter_none:
  assumes "\<And>name w. \<not> P (LogWrite name w rec)"
  shows "filter P (fst (dispatchLogsForLogRecord lvl rec names log)) = []"
  using assms by (auto simp: filter_empty_conv dispatch_mem)

lemma written_append: "written (xs @ ys) = written xs @ written ys"
  by (induction xs rule: written.induct) simp_all

lemma dispatch_written:
  "set (written (fst (dispatchLogsForLogRecord lvl rec names log))) \<subseteq> {rec}"
  by (induction names) (auto simp: case_prod_beta Let_def split: option.splits)

lemma dispatchSM_fst:
  "fst (dispatchLogsForSourceAndMessage e lvl source message log) =
     Now # fst (dispatchLogsForLogRecord lvl
       \<lparr>RecLevel = lvl, Created = time_Now e, Source = source, Message = message\<rparr>
       (range_dispatch e) log)"
  by (simp add: dispatchLogsForSourceAndMessage_def case_prod_beta Let_def)

lemma dispatchSM_snd: "snd (dispatchLogsForSourceAndMessage e lvl source message log) = log"
  by (simp add: dispatchLogsForSourceAndMessage_def case_prod_beta Let_def dispatch_snd)

lemma intLogf_snd: "snd (intLogf e lvl format args log) = log"
  by (simp add: intLogf_def case_prod_beta Let_def dispatchSM_snd)

lemma intLogc_snd: "snd (intLogc e lvl closure log) = log"
  by (simp add: intLogc_def case_prod_beta Let_def dispatchSM_snd)

lemma Log_snd: "snd (Log e lvl source message log) = log"
  by (simp add: Log_def case_prod_beta Let_def dispatchSM_snd)

lemma intLogf_fst:
  "fst (intLogf e lvl format args log) =
     (if shouldSkip lvl (range_shouldSkip e) log then [RLock, RUnlock]
      else RLock # Caller 3 # (if args = [] then [] else [Sprintf format args]) @
           Now # fst (dispatchLogsForLogRecord lvl
             \<lparr>RecLevel = lvl, Created = time_Now e, Source = caller_source e 3,
              Message = (if args = [] then format else fmt_Sprintf e format args)\<rparr>
             (range_dispatch e) log) @ [RUnlock])"
  by (simp add: intLogf_def case_prod_beta Let_def dispatchSM_fst)

lemma intLogc_fst:
  "fst (intLogc e lvl closure log) =
     (if shouldSkip lvl (range_shouldSkip e) log then [RLock, RUnlock]
      else RLock # Caller 2 # Call closure #
           Now # fst (dispatchLogsForLogRecord lvl
             \<lparr>RecLevel = lvl, Created = time_Now e, Source = caller_source e 2,
              Message = result closure\<rparr>
             (range_dispatch e) log) @ [RUnlock])"
  by (simp add: intLogc_def case_prod_beta Let_def dispatchSM_fst)

lemma Log_fst:
  "fst (Log e lvl source message log) =
     (if shouldSkip lvl (range_shouldSkip e) log then [RLock, RUnlock]
      else RLock #
           Now # fst (dispatchLogsForLogRecord lvl
             \<lparr>RecLevel = lvl, Created = time_Now e, Source = source, Message = message\<rparr>
             (range_dispatch e) log) @ [RUnlock])"
  by (simp add: Log_def case_prod_beta Let_def dispatchSM_fst)

lemma formatted_intLogf_noargs: "formatted (fst (intLogf e lvl format [] log)) = 0"
  by (simp add: intLogf_fst formatted_def dispatch_filter_none)

lemma records_made_intLogf:
  "records_made (fst (intLogf e lvl format args log)) =
     (if shouldSkip lvl (range_shouldSkip e) log then 0 else 1)"
  by (simp add: intLogf_fst records_made_def dispatch_filter_none)

lemma formatted_append: "formatted (xs @ ys) = formatted xs + formatted ys"
  by (simp add: formatted_def)

lemma records_made_append: "records_made (xs @ ys) = records_made xs + records_made ys"
  by (simp add: records_made_def)

lemma formatted_simps:
  "formatted [] = 0"
  "formatted (Sprintf format args # es) = Suc (formatted es)"
  "formatted (Call c # es) = Suc (formatted es)"
  "formatted (Sprint v # es) = formatted es"
  by (simp_all add: formatted_def)

lemma records_made_simps:
  "records_made [] = 0"
  "records_made (Sprintf format args # es) = records_made es"
  "records_made (Call c # es) = records_made es"
  "records_made (Sprint v # es) = records_made es"
  by (simp_all add: records_made_def)

lemma overWarning_formatted: "formatted (fst (snd (overWarning e lvl arg0 args log))) = 1"
  by (cases arg0)
     (simp_all add: overWarning_def case_prod_beta Let_def formatted_append formatted_simps
        formatted_intLogf_noargs)

lemma overWarning_records_made:
  "records_made (fst (snd (overWarning e lvl arg0 args log))) =
     (if shouldSkip lvl (range_shouldSkip e) log then 0 else 1)"
  by (cases arg0)
     (simp_all add: overWarning_def case_prod_beta Let_def records_made_append records_made_simps
        records_made_intLogf)

subsection \<open>Deliveries\<close>

lemma dispatch_count:
  "distinct names \<Longrightarrow> name \<in> set names \<Longrightarrow> Filters log name = Some filt \<Longrightarrow>
   length (filter (\<lambda>ev. ev = LogWrite name (LogWriter filt) rec)
       (fst (dispatchLogsForLogRecord lvl rec names log))) = (if Level filt \<le> lvl then 1 else 0)"
proof (induction names)
  case Nil
  then show ?case by simp
next
  case (Cons n names)
  have none: "name \<notin> set names \<Longrightarrow>
     filter (\<lambda>ev. ev = LogWrite name (LogWriter filt) rec)
       (fst (dispatchLogsForLogRecord lvl rec names log)) = []"
    by (auto simp: filter_empty_conv dispatch_mem)
  show ?case
  proof (cases "n = name")
    case True
    then show ?thesis using Cons.prems none by (simp add: case_prod_beta)
  next
    case False
    then show ?thesis using Cons by (cases "Filters log n") (auto simp: case_prod_beta)
  qed
qed

lemma dispatch_on_filter:
  "set names = dom (Filters log) \<Longrightarrow> Filters log name = Some filt \<Longrightarrow>
   (\<exists>w r. LogWrite name w r \<in> set (fst (dispatchLogsForLogRecord lvl rec names log))) \<longleftrightarrow>
     Level filt \<le> lvl"
  by (auto simp: dispatch_mem)

lemma dispatch_off_filter:
  "name \<notin> set names \<Longrightarrow>
   filter (on_filter name) (fst (dispatchLogsForLogRecord lvl rec names log)) = []"
  by (auto simp: filter_empty_conv dispatch_mem)

lemma dispatch_filter_on_filter:
  "distinct names \<Longrightarrow> name \<in> set names \<Longrightarrow> Filters log name = Some filt \<Longrightarrow>
   filter (on_filter name) (fst (dispatchLogsForLogRecord lvl rec names log)) =
     (if Level filt \<le> lvl then [LogWrite name (LogWriter filt) rec] else [])"
proof (induction names)
  case Nil
  then show ?case by simp
next
  case (Cons n names)
  show ?case
  proof (cases "n = name")
    case True
    then have "name \<notin> set names" using Cons.prems(1) by simp
    from dispatch_off_filter[OF this, of lvl rec log] show ?thesis
      using True Cons.prems(3) by (simp add: case_prod_beta)
  next
    case False
    then have "name \<in> set names" "distinct names" using Cons.prems by simp_all
    from Cons.IH[OF this(2) this(1) Cons.prems(3)] show ?thesis
      using False by (cases "Filters log n") (simp_all add: case_prod_beta)
  qed
qed

lemma intLogf_on_filter:
  assumes "ranges e log" and "Filters log name = Some filt"
  shows "filter (on_filter name) (fst (intLogf e lvl format args log)) =
     (if Level filt \<le> lvl
      then [LogWrite name (LogWriter filt)
              \<lparr>RecLevel = lvl, Created = time_Now e, Source = caller_source e 3,
               Message = (if args = [] then format else fmt_Sprintf e format args)\<rparr>]
      else [])"
proof -
  have d: "distinct (range_dispatch e)" and s: "set (range_dispatch e) = dom (Filters log)"
    using assms(1) by (simp_all add: ranges_def range_of_def)
  have mem: "name \<in> set (range_dispatch e)"
    using s assms(2) by auto
  show ?thesis
  proof (cases "shouldSkip lvl (range_shouldSkip e) log")
    case True
    then have "\<not> Level filt \<le> lvl"
      using assms by (auto simp: shouldSkip_ranges accepted_def)
    with True show ?thesis by (simp add: intLogf_fst)
  next
    case False
    then show ?thesis
      using dispatch_filter_on_filter[OF d mem assms(2)] by (simp add: intLogf_fst)
  qed
qed

lemma intLogf_not_accepted:
  "ranges e log \<Longrightarrow> \<not> accepted log lvl \<Longrightarrow>
   fst (intLogf e lvl format args log) = [RLock, RUnlock]"
  by (simp add: intLogf_fst shouldSkip_ranges)

lemma overWarning_split:
  "\<exists>fs. formatted fs = 1 \<and> records_made fs = 0 \<and> written fs = [] \<and>
        filter (on_filter name) fs = [] \<and>
        fst (snd (overWarning e lvl arg0 args log)) =
          fs @ fst (intLogf e lvl (error_Error (fst (overWarning e lvl arg0 args log))) [] log)"
proof (cases arg0)
  case (VString first)
  show ?thesis
    by (rule exI[of _ "[Sprintf first args]"])
       (simp add: VString overWarning_def case_prod_beta formatted_simps records_made_simps)
next
  case (VFunc c)
  show ?thesis
    by (rule exI[of _ "[Call c]"])
       (simp add: VFunc overWarning_def case_prod_beta formatted_simps records_made_simps)
next
  case VNil
  show ?thesis
    by (rule exI[of _ "[Sprint VNil,
          Sprintf (fmt_Sprint e VNil @ strings_Repeat '' %v'' (length args)) args]"])
       (simp add: VNil overWarning_def case_prod_beta Let_def formatted_simps records_made_simps)
next
  case (VOther t r)
  show ?thesis
    by (rule exI[of _ "[Sprint (VOther t r),
          Sprintf (fmt_Sprint e (VOther t r) @ strings_Repeat '' %v'' (length args)) args]"])
       (simp add: VOther overWarning_def case_prod_beta Let_def formatted_simps
          records_made_simps)
qed

lemma overWarning_on_filter:
  assumes "ranges e log" and "Filters log name = Some filt"
  shows "filter (on_filter name) (fst (snd (overWarning e lvl arg0 args log))) =
     (if Level filt \<le> lvl
      then [LogWrite name (LogWriter filt)
              \<lparr>RecLevel = lvl, Created = time_Now e, Source = caller_source e 3,
               Message = error_Error (fst (overWarning e lvl arg0 args log))\<rparr>]
      else [])"
proof -
  obtain fs where fs: "filter (on_filter name) fs = []"
    "fst (snd (overWarning e lvl arg0 args log)) =
       fs @ fst (intLogf e lvl (error_Error (fst (overWarning e lvl arg0 args log))) [] log)"
    using overWarning_split[of name e lvl arg0 args log] by blast
  show ?thesis
    unfolding fs(2) using fs(1) intLogf_on_filter[OF assms, of lvl _ "[]"] by simp
qed

lemma overWarning_not_accepted:
  assumes "ranges e log" and "\<not> accepted log lvl"
  shows "written (fst (snd (overWarning e lvl arg0 args log))) = []"
proof -
  obtain fs where fs: "written fs = []"
    "fst (snd (overWarning e lvl arg0 args log)) =
       fs @ fst (intLogf e lvl (error_Error (fst (overWarning e lvl arg0 args log))) [] log)"
    using overWarning_split[of "[]" e lvl arg0 args log] by blast
  show ?thesis
    unfolding fs(2) using fs(1) by (simp add: written_append intLogf_not_accepted[OF assms])
qed

subsection \<open>Records written and errors returned\<close>

lemma intLogf_written:
  "set (written (fst (intLogf e lvl format args log))) \<subseteq>
     {\<lparr>RecLevel = lvl, Created = time_Now e, Source = caller_source e 3,
       Message = (if args = [] then format else fmt_Sprintf e format args)\<rparr>}"
  using dispatch_written[of lvl _ "range_dispatch e" log]
  by (auto simp: intLogf_fst written_append)

lemma written_overWarning:
  "written (fst (snd (overWarning e lvl arg0 args log))) =
   written (fst (intLogf e lvl (error_Error (fst (overWarning e lvl arg0 args log))) [] log))"
  by (cases arg0) (simp_all add: overWarning_def case_prod_beta Let_def written_append)

lemma Sprintf_overWarning:
  "length (filter is_Sprintf (fst (snd (overWarning e lvl arg0 args log)))) \<le> 1"
  by (cases arg0) (simp_all add: overWarning_def case_prod_beta Let_def intLogf_fst dispatch_filter_none)

lemma overWarning_Message:
  "rec \<in> set (written (fst (snd (overWarning e lvl arg0 args log)))) \<Longrightarrow>
   Message rec = error_Error (fst (overWarning e lvl arg0 args log))"
  using intLogf_written[of e lvl "error_Error (fst (overWarning e lvl arg0 args log))" "[]" log]
  by (auto simp: written_overWarning)

lemma overWarning_error:
  "error_Error (fst (overWarning e lvl (VString first) args log)) = fmt_Sprintf e first args"
  "error_Error (fst (overWarning e lvl (VFunc c) args log)) = result c"
  "error_Error (fst (overWarning e lvl VNil args log)) =
     fmt_Sprintf e (fmt_Sprint e VNil @ strings_Repeat '' %v'' (length args)) args"
  "error_Error (fst (overWarning e lvl (VOther t r) args log)) =
     fmt_Sprintf e (fmt_Sprint e (VOther t r) @ strings_Repeat '' %v'' (length args)) args"
  by (simp_all add: overWarning_def case_prod_beta Let_def)

subsection \<open>The loop of Close\<close>

lemma Close_loop_filters:
  "Filters (snd (Close_loop names log)) = (\<lambda>k. if k \<in> set names then None else Filters log k)"
proof (induction names arbitrary: log)
  case Nil
  show ?case by simp
next
  case (Cons n names)
  show ?case
  proof (cases "Filters log n")
    case None
    then show ?thesis using Cons[of log] by (auto simp: fun_eq_iff)
  next
    case (Some f)
    then show ?thesis
      using Cons[of "log\<lparr>Filters := (Filters log)(n := None)\<rparr>"]
      by (auto simp: case_prod_beta fun_eq_iff)
  qed
qed

lemma Close_loop_mem:
  "ev \<in> set (fst (Close_loop names log)) \<Longrightarrow>
     \<exists>name filt. name \<in> set names \<and> Filters log name = Some filt \<and>
        ev = CloseWriter name (LogWriter filt)"
proof (induction names arbitrary: log)
  case Nil
  then show ?case by simp
next
  case (Cons n names)
  show ?case
  proof (cases "Filters log n")
    case None
    then have "ev \<in> set (fst (Close_loop names log))" using Cons.prems by simp
    from Cons.IH[OF this] show ?thesis by auto
  next
    case (Some f)
    let ?log' = "log\<lparr>Filters := (Filters log)(n := None)\<rparr>"
    have "ev = CloseWriter n (LogWriter f) \<or> ev \<in> set (fst (Close_loop names ?log'))"
      using Cons.prems Some by (simp add: case_prod_beta)
    then show ?thesis
    proof
      assume "ev = CloseWriter n (LogWriter f)"
      then show ?thesis using Some by auto
    next
      assume "ev \<in> set (fst (Close_loop names ?log'))"
      from Cons.IH[OF this] obtain name filt where
        nf: "name \<in> set names" "Filters ?log' name = Some filt" "ev = CloseWriter name (LogWriter filt)"
        by blast
      from nf(2) have "Filters log name = Some filt" by (simp split: if_splits)
      with nf show ?thesis by auto
    qed
  qed
qed

lemma Close_loop_count:
  "name \<in> set names \<Longrightarrow> Filters log name = Some filt \<Longrightarrow>
   length (filter (\<lambda>ev. ev = CloseWriter name (LogWriter filt)) (fst (Close_loop names log))) = 1"
proof (induction names arbitrary: log)
  case Nil
  then show ?case by simp
next
  case (Cons n names)
  show ?case
  proof (cases "n = name")
    case True
    let ?log' = "log\<lparr>Filters := (Filters log)(name := None)\<rparr>"
    have "filter (\<lambda>ev. ev = CloseWriter name (LogWriter filt)) (fst (Close_loop names ?log')) = []"
      using Close_loop_mem[of _ names ?log'] by (fastforce simp: filter_empty_conv)
    then show ?thesis using True Cons.prems by (simp add: case_prod_beta)
  next
    case False
    then have mem: "name \<in> set names" using Cons.prems by simp
    show ?thesis
    proof (cases "Filters log n")
      case None
      then show ?thesis using Cons.IH[OF mem Cons.prems(2)] by simp
    next
      case (Some f)
      have "Filters (log\<lparr>Filters := (Filters log)(n := None)\<rparr>) name = Some filt"
        using False Cons.prems(2) by simp
      from Cons.IH[OF mem this] show ?thesis using Some False by (simp add: case_prod_beta)
    qed
  qed
qed

lemma Close_fst: "fst (Close names log) = Lock # fst (Close_loop names log) @ [Unlock]"
  by (simp add: Close_def case_prod_beta)

lemma Close_snd: "snd (Close names log) = snd (Close_loop names log)"
  by (simp add: Close_def case_prod_beta)

lemma shouldSkip_empty: "Filters log = Map.empty \<Longrightarrow> shouldSkip lvl names log"
  by (simp add: shouldSkip_iff)

subsection \<open>Formats built from a rendering and a run of \<^verbatim>\<open>%v\<close>\<close>

lemma go_extra_Nil: "go_extra [] = []"
  by (simp add: go_extra_def)

lemma go_printArg_v: "go_printArg (CHR ''v'') a = Some (go_Sprint a)"
  by (cases a) simp_all

lemma go_Sprintf_literal:
  "CHR ''%'' \<noteq> c \<Longrightarrow> go_Sprintf other (c # format) args = c # go_Sprintf other format args"
  by simp

lemma go_Sprintf_literals:
  "CHR ''%'' \<notin> set s \<Longrightarrow> go_Sprintf other (s @ format) args = s @ go_Sprintf other format args"
  by (induction s) (simp_all del: go_Sprintf.simps add: go_Sprintf_literal)

lemma go_Sprintf_percent_v:
  "go_Sprintf other (CHR ''%'' # CHR ''v'' # format) (a # as) =
     go_Sprint a @ go_Sprintf other format as"
  by (simp add: go_flag_def go_printArg_v)

lemma strings_Repeat_Suc: "strings_Repeat s (Suc n) = s @ strings_Repeat s n"
  by (simp add: strings_Repeat_def)

lemma go_Sprintf_verbs:
  "go_Sprintf other (strings_Repeat '' %v'' (length args)) args =
     concat (map (\<lambda>a. '' '' @ go_Sprint a) args)"
proof (induction args)
  case Nil
  show ?case by (simp add: strings_Repeat_def go_extra_Nil)
next
  case (Cons a args)
  have "go_Sprintf other (strings_Repeat '' %v'' (length (a # args))) (a # args) =
          CHR '' '' # go_Sprintf other (CHR ''%'' # CHR ''v'' # strings_Repeat '' %v'' (length args))
            (a # args)"
    by (simp del: go_Sprintf.simps add: strings_Repeat_Suc go_Sprintf_literal)
  then show ?case
    using Cons by (simp del: go_Sprintf.simps add: go_Sprintf_percent_v)
qed

lemma go_Sprintf_joined:
  assumes "fmt_Sprintf e = go_Sprintf other" and "fmt_Sprint e = go_Sprint"
    and "CHR ''%'' \<notin> set (go_Sprint arg0)"
  shows "fmt_Sprintf e (fmt_Sprint e arg0 @ strings_Repeat '' %v'' (length args)) args =
           joined e arg0 args"
  using assms by (simp add: joined_def go_Sprintf_literals go_Sprintf_verbs)

section \<open>Level strings\<close>

lemma Level_String_in_range:
  "0 \<le> l \<Longrightarrow> l \<le> 7 \<Longrightarrow> Level_String l = Inr (levelStrings ! nat l)"
  by (simp add: Level_String_def levelStrings_def index_def)

lemma Level_String_FINEST_CRITICAL:
  "Level_String FINEST = Inr ''FNST''" "Level_String CRITICAL = Inr ''CRIT''"
  by (simp_all add: Level_String_def levelStrings_def index_def FINEST_def CRITICAL_def)

lemma Level_String_UNKNOWN: "l < 0 \<or> 8 < l \<Longrightarrow> Level_String l = Inr ''UNKNOWN''"
  by (auto simp: Level_String_def levelStrings_def)

text \<open>
  C2, at the level 8. \<^verbatim>\<open>Level(8).String()\<close> passes the guard, since 8 is not greater than
  the length 8 of \<^verbatim>\<open>levelStrings\<close>, and indexes the array at 8: a panic, where the
  claim has the string UNKNOWN. Below 0 and above 8 the result is UNKNOWN, and from 0
  to 7 the abbreviation, as the three lemmas above say.
\<close>

theorem Level_String_8_panics: "Level_String 8 = Inl (IndexOutOfRange 8 8)"
  by (simp add: Level_String_def levelStrings_def index_def)

section \<open>Dispatch\<close>

text \<open>
  C3. For a filter stored under \<open>name\<close> with threshold \<open>Level filt\<close>, a call of \<^verbatim>\<open>Log\<close> at
  \<open>lvl\<close> calls \<^verbatim>\<open>LogWrite\<close> on that filter if and only if \<open>Level filt \<le> lvl\<close>; when it
  does, it passes the record once. The same holds of \<^verbatim>\<open>dispatchLogsForLogRecord\<close> for
  any record.
\<close>

theorem delivered_iff_threshold_met:
  assumes "ranges e log" and "Filters log name = Some filt"
  shows "((\<exists>w r. LogWrite name w r \<in> set (fst (Log e lvl source message log))) \<longleftrightarrow>
            Level filt \<le> lvl) \<and>
         length (filter (\<lambda>ev. ev = LogWrite name (LogWriter filt)
               \<lparr>RecLevel = lvl, Created = time_Now e, Source = source, Message = message\<rparr>)
             (fst (Log e lvl source message log))) = (if Level filt \<le> lvl then 1 else 0) \<and>
         length (filter (\<lambda>ev. ev = LogWrite name (LogWriter filt) rec)
             (fst (dispatchLogsForLogRecord lvl rec (range_dispatch e) log))) =
           (if Level filt \<le> lvl then 1 else 0)"
proof -
  let ?rec = "\<lparr>RecLevel = lvl, Created = time_Now e, Source = source, Message = message\<rparr>"
  have d: "distinct (range_dispatch e)" and s: "set (range_dispatch e) = dom (Filters log)"
    using assms(1) by (simp_all add: ranges_def range_of_def)
  have mem: "name \<in> set (range_dispatch e)"
    using s assms(2) by auto
  have acc: "Level filt \<le> lvl \<Longrightarrow> \<not> shouldSkip lvl (range_shouldSkip e) log"
    using assms by (auto simp: shouldSkip_ranges accepted_def)
  have a: "(\<exists>w r. LogWrite name w r \<in> set (fst (Log e lvl source message log))) \<longleftrightarrow>
            Level filt \<le> lvl"
    using acc dispatch_on_filter[OF s assms(2)] by (auto simp: Log_fst)
  have b: "length (filter (\<lambda>ev. ev = LogWrite name (LogWriter filt) ?rec)
             (fst (Log e lvl source message log))) = (if Level filt \<le> lvl then 1 else 0)"
  proof (cases "Level filt \<le> lvl")
    case True
    then show ?thesis
      using acc dispatch_count[OF d mem assms(2), of ?rec lvl] by (simp add: Log_fst)
  next
    case False
    then show ?thesis
      using dispatch_count[OF d mem assms(2), of ?rec lvl] by (simp add: Log_fst)
  qed
  show ?thesis using a b dispatch_count[OF d mem assms(2)] by simp
qed

text \<open>
  The example of C3: with the filters a at DEBUG and b at ERROR, a record logged at
  WARNING does not reach b, and one logged at CRITICAL does.
\<close>

theorem delivered_iff_threshold_met_witness:
  "ranges (go_env [''a'', ''b'']) logger_ab \<and>
   Filters logger_ab ''b'' = Some \<lparr>Level = ERROR, LogWriter = 2\<rparr> \<and>
   \<not> (\<exists>w r. LogWrite ''b'' w r
          \<in> set (fst (Log (go_env [''a'', ''b'']) WARNING ''main'' ''m'' logger_ab))) \<and>
   (\<exists>w r. LogWrite ''b'' w r
          \<in> set (fst (Log (go_env [''a'', ''b'']) CRITICAL ''main'' ''m'' logger_ab)))"
proof -
  have h: "ranges (go_env [''a'', ''b'']) logger_ab"
    by (auto simp: ranges_def range_of_def go_env_def logger_ab_def AddFilter_def NewLogger_def)
  have f: "Filters logger_ab ''b'' = Some \<lparr>Level = ERROR, LogWriter = 2\<rparr>"
    by (simp add: logger_ab_def AddFilter_def NewLogger_def)
  show ?thesis
    using h f
      delivered_iff_threshold_met [OF h f, of WARNING "''main''" "''m''"]
      delivered_iff_threshold_met [OF h f, of CRITICAL "''main''" "''m''"]
    by (simp add: WARNING_def ERROR_def CRITICAL_def)
qed

text \<open>The two runs of that example, call by call.\<close>

lemma Log_example:
  "fst (Log (go_env [''a'', ''b'']) WARNING ''main'' ''m'' logger_ab) =
     [RLock, Now,
      LogWrite ''a'' 1 \<lparr>RecLevel = WARNING, Created = 7, Source = ''main'', Message = ''m''\<rparr>,
      RUnlock]"
  "fst (Log (go_env [''a'', ''b'']) CRITICAL ''main'' ''m'' logger_ab) =
     [RLock, Now,
      LogWrite ''a'' 1 \<lparr>RecLevel = CRITICAL, Created = 7, Source = ''main'', Message = ''m''\<rparr>,
      LogWrite ''b'' 2 \<lparr>RecLevel = CRITICAL, Created = 7, Source = ''main'', Message = ''m''\<rparr>,
      RUnlock]"
  by (simp_all add: Log_def dispatchLogsForSourceAndMessage_def Let_def go_env_def logger_ab_def
        AddFilter_def NewLogger_def DEBUG_def WARNING_def ERROR_def CRITICAL_def)

section \<open>The admission check of Logf and Logc\<close>

text \<open>
  C4. When no filter has a threshold at or below \<open>lvl\<close>, \<^verbatim>\<open>Logf\<close> and \<^verbatim>\<open>Logc\<close> take and
  release the read lock and call nothing else: no \<^verbatim>\<open>fmt.Sprintf\<close>, no closure. When some
  filter accepts \<open>lvl\<close>, \<^verbatim>\<open>Logc\<close> calls its closure exactly once; it never calls it twice.
\<close>

theorem Logf_Logc_skip_unless_accepted:
  assumes "ranges e log"
  shows "(\<not> accepted log lvl \<longrightarrow>
            fst (Logf e lvl format args log) = [RLock, RUnlock] \<and>
            fst (Logc e lvl closure log) = [RLock, RUnlock]) \<and>
         (accepted log lvl \<longrightarrow>
            filter is_Call (fst (Logc e lvl closure log)) = [Call closure]) \<and>
         length (filter is_Call (fst (Logc e lvl closure log))) \<le> 1"
  using assms
  by (simp add: Logf_def Logc_def intLogf_fst intLogc_fst shouldSkip_ranges dispatch_filter_none)

theorem Logf_Logc_skip_unless_accepted_witness:
  "ranges (go_env [''a'', ''b'']) logger_ab \<and>
   \<not> accepted logger_ab FINE \<and>
   fst (Logf (go_env [''a'', ''b'']) FINE ''%v'' [VNil] logger_ab) = [RLock, RUnlock] \<and>
   fst (Logc (go_env [''a'', ''b'']) FINE (Closure ''0x47b260'' ''m'') logger_ab) =
     [RLock, RUnlock] \<and>
   accepted logger_ab INFO \<and>
   filter is_Call (fst (Logc (go_env [''a'', ''b'']) INFO (Closure ''0x47b260'' ''m'') logger_ab)) =
     [Call (Closure ''0x47b260'' ''m'')]"
proof -
  have h: "ranges (go_env [''a'', ''b'']) logger_ab"
    by (auto simp: ranges_def range_of_def go_env_def logger_ab_def AddFilter_def NewLogger_def)
  have n: "\<not> accepted logger_ab FINE"
    by (auto simp: accepted_def logger_ab_def AddFilter_def NewLogger_def FINE_def DEBUG_def
          ERROR_def split: if_splits)
  have a: "accepted logger_ab INFO"
    unfolding accepted_def
    by (rule exI[of _ "''a''"])
       (simp add: logger_ab_def AddFilter_def NewLogger_def DEBUG_def INFO_def)
  show ?thesis
    using h n a
      Logf_Logc_skip_unless_accepted [OF h, of FINE "''%v''" "[VNil]" "Closure ''0x47b260'' ''m''"]
      Logf_Logc_skip_unless_accepted [OF h, of INFO "''%v''" "[VNil]" "Closure ''0x47b260'' ''m''"]
    by simp
qed

section \<open>Warn, Error, Critical\<close>

text \<open>
  C1, as the code has it. Let \<open>m\<close> be \<^verbatim>\<open>Warn\<close>, \<^verbatim>\<open>Error\<close> or \<^verbatim>\<open>Critical\<close> and \<open>lvl\<close> its
  level. The call produces the text of its message exactly once, whatever the filters
  are, and then does what \<^verbatim>\<open>intLogf\<close> does with that text, the text of the returned
  error, and no arguments; before that it makes no record and writes nothing. The
  admission check of \<^verbatim>\<open>intLogf\<close> applies: one record is made when some filter has a
  threshold at or below \<open>lvl\<close>, and none otherwise, and then nothing is written. Every
  filter of the logger whose threshold is at or below \<open>lvl\<close> gets exactly one call of
  \<^verbatim>\<open>LogWrite\<close>, with the record that carries \<open>lvl\<close>, the clock, the call site and that
  text; every other filter gets none.
\<close>

theorem Warn_formats_once_logs_if_accepted:
  assumes "ranges e log"
    and "(m, lvl) = (Warn, WARNING) \<or> (m, lvl) = (Error, ERROR) \<or> (m, lvl) = (Critical, CRITICAL)"
  shows "formatted (fst (snd (m e arg0 args log))) = 1 \<and>
         (\<exists>fs. formatted fs = 1 \<and> records_made fs = 0 \<and> written fs = [] \<and>
            fst (snd (m e arg0 args log)) =
              fs @ fst (intLogf e lvl (error_Error (fst (m e arg0 args log))) [] log)) \<and>
         records_made (fst (snd (m e arg0 args log))) = (if accepted log lvl then 1 else 0) \<and>
         (\<not> accepted log lvl \<longrightarrow> written (fst (snd (m e arg0 args log))) = []) \<and>
         (\<forall>name filt. Filters log name = Some filt \<longrightarrow>
            filter (on_filter name) (fst (snd (m e arg0 args log))) =
              (if Level filt \<le> lvl
               then [LogWrite name (LogWriter filt)
                       \<lparr>RecLevel = lvl, Created = time_Now e, Source = caller_source e 3,
                        Message = error_Error (fst (m e arg0 args log))\<rparr>]
               else []))"
proof -
  have m: "m = (\<lambda>e arg0 args log. overWarning e lvl arg0 args log)"
    using assms(2) unfolding Warn_def Error_def Critical_def fun_eq_iff by auto
  have split: "\<exists>fs. formatted fs = 1 \<and> records_made fs = 0 \<and> written fs = [] \<and>
            fst (snd (overWarning e lvl arg0 args log)) =
              fs @ fst (intLogf e lvl (error_Error (fst (overWarning e lvl arg0 args log))) [] log)"
    using overWarning_split[of "[]" e lvl arg0 args log] by blast
  show ?thesis
    unfolding m
    using split overWarning_on_filter[OF assms(1), of _ _ lvl arg0 args]
      overWarning_not_accepted[OF assms(1), of lvl arg0 args]
    by (simp add: overWarning_formatted overWarning_records_made shouldSkip_ranges[OF assms(1)])
qed

lemma Warn_example:
  "Warn (go_env [''a'', ''b'']) (VString ''disk %v'') [VOther ''int'' ''9''] logger_ab =
     (errors_New ''disk 9'',
      [Sprintf ''disk %v'' [VOther ''int'' ''9''], RLock, Caller 3, Now,
       LogWrite ''a'' 1
         \<lparr>RecLevel = WARNING, Created = 7, Source = ''main.main:42'', Message = ''disk 9''\<rparr>,
       RUnlock], logger_ab)"
  by (simp add: Warn_def overWarning_def intLogf_def dispatchLogsForSourceAndMessage_def Let_def
        go_extra_def go_flag_def caller_source_def go_env_def logger_ab_def AddFilter_def
        NewLogger_def DEBUG_def ERROR_def WARNING_def)

text \<open>
  \<^verbatim>\<open>Warn("disk %v", 9)\<close> on the logger with a at DEBUG and b at ERROR: one format, one
  record, one write on a, none on b.
\<close>

theorem Warn_formats_once_logs_if_accepted_witness:
  "ranges (go_env [''a'', ''b'']) logger_ab \<and>
   Filters logger_ab ''a'' = Some \<lparr>Level = DEBUG, LogWriter = 1\<rparr> \<and>
   Filters logger_ab ''b'' = Some \<lparr>Level = ERROR, LogWriter = 2\<rparr> \<and>
   accepted logger_ab WARNING \<and>
   formatted (fst (snd (Warn (go_env [''a'', ''b'']) (VString ''disk %v'') [VOther ''int'' ''9'']
       logger_ab))) = 1 \<and>
   records_made (fst (snd (Warn (go_env [''a'', ''b'']) (VString ''disk %v'') [VOther ''int'' ''9'']
       logger_ab))) = 1 \<and>
   filter (on_filter ''a'') (fst (snd (Warn (go_env [''a'', ''b'']) (VString ''disk %v'')
       [VOther ''int'' ''9''] logger_ab))) =
     [LogWrite ''a'' 1
        \<lparr>RecLevel = WARNING, Created = 7, Source = ''main.main:42'', Message = ''disk 9''\<rparr>] \<and>
   filter (on_filter ''b'') (fst (snd (Warn (go_env [''a'', ''b'']) (VString ''disk %v'')
       [VOther ''int'' ''9''] logger_ab))) = []"
proof -
  have h: "ranges (go_env [''a'', ''b'']) logger_ab"
    by (auto simp: ranges_def range_of_def go_env_def logger_ab_def AddFilter_def NewLogger_def)
  have m: "(Warn :: env \<Rightarrow> val \<Rightarrow> val list \<Rightarrow> nat Logger \<Rightarrow> error \<times> nat event list \<times> nat Logger,
             WARNING) = (Warn, WARNING)
           \<or> (Warn :: env \<Rightarrow> val \<Rightarrow> val list \<Rightarrow> nat Logger \<Rightarrow> error \<times> nat event list \<times> nat Logger,
             WARNING) = (Error, ERROR)
           \<or> (Warn :: env \<Rightarrow> val \<Rightarrow> val list \<Rightarrow> nat Logger \<Rightarrow> error \<times> nat event list \<times> nat Logger,
             WARNING) = (Critical, CRITICAL)"
    by simp
  have fa: "Filters logger_ab ''a'' = Some \<lparr>Level = DEBUG, LogWriter = 1\<rparr>"
    and fb: "Filters logger_ab ''b'' = Some \<lparr>Level = ERROR, LogWriter = 2\<rparr>"
    by (simp_all add: logger_ab_def AddFilter_def NewLogger_def)
  have a: "accepted logger_ab WARNING"
    unfolding accepted_def
    by (rule exI[of _ "''a''"])
       (simp add: logger_ab_def AddFilter_def NewLogger_def DEBUG_def WARNING_def)
  show ?thesis
    using h fa fb a
      Warn_formats_once_logs_if_accepted [OF h m, of "VString ''disk %v''" "[VOther ''int'' ''9'']"]
    by (simp add: Warn_example)
qed

text \<open>
  C1 as stated fails on a logger without filters: \<^verbatim>\<open>Warn("x")\<close> formats its message, and
  \<^verbatim>\<open>intLogf\<close> returns at its admission check: no record is made and nothing is written.
\<close>

theorem Warn_not_logged_without_filter:
  "Warn (go_env []) (VString ''x'') [] (NewLogger :: nat Logger) =
     (errors_New ''x'', [Sprintf ''x'' [], RLock, RUnlock], NewLogger) \<and>
   formatted (fst (snd (Warn (go_env []) (VString ''x'') [] (NewLogger :: nat Logger)))) = 1 \<and>
   records_made (fst (snd (Warn (go_env []) (VString ''x'') [] (NewLogger :: nat Logger)))) \<noteq> 1 \<and>
   written (fst (snd (Warn (go_env []) (VString ''x'') [] (NewLogger :: nat Logger)))) = []"
  by (simp add: Warn_def overWarning_def intLogf_def go_env_def NewLogger_def go_extra_def
        formatted_def records_made_def)

text \<open>
  C6. The error that \<^verbatim>\<open>Warn\<close>, \<^verbatim>\<open>Error\<close> and \<^verbatim>\<open>Critical\<close> return carries the formatted
  message, for each form of the first argument: the format applied to the arguments, the
  result of the closure, or the format built from the rendering of the first argument.
  Every record the call writes carries that same text.
\<close>

theorem overWarning_returns_message:
  assumes "m = Warn \<or> m = Error \<or> m = Critical"
  shows "error_Error (fst (m e (VString first) args log)) = fmt_Sprintf e first args \<and>
         error_Error (fst (m e (VFunc c) args log)) = result c \<and>
         error_Error (fst (m e VNil args log)) =
           fmt_Sprintf e (fmt_Sprint e VNil @ strings_Repeat '' %v'' (length args)) args \<and>
         error_Error (fst (m e (VOther t r) args log)) =
           fmt_Sprintf e (fmt_Sprint e (VOther t r) @ strings_Repeat '' %v'' (length args)) args \<and>
         (\<forall>rec \<in> set (written (fst (snd (m e arg0 args log)))).
            Message rec = error_Error (fst (m e arg0 args log)))"
proof -
  obtain lvl where m: "m = (\<lambda>e arg0 args log. overWarning e lvl arg0 args log)"
    using assms unfolding Warn_def Error_def Critical_def fun_eq_iff by metis
  show ?thesis
    unfolding m using overWarning_Message[of _ e lvl arg0 args log]
    by (simp add: overWarning_error)
qed

lemma Error_example:
  "Error (go_env [''a'', ''b'']) (VString ''disk %v'') [VOther ''int'' ''9''] logger_ab =
     (errors_New ''disk 9'',
      [Sprintf ''disk %v'' [VOther ''int'' ''9''], RLock, Caller 3, Now,
       LogWrite ''a'' 1
         \<lparr>RecLevel = ERROR, Created = 7, Source = ''main.main:42'', Message = ''disk 9''\<rparr>,
       LogWrite ''b'' 2
         \<lparr>RecLevel = ERROR, Created = 7, Source = ''main.main:42'', Message = ''disk 9''\<rparr>,
       RUnlock], logger_ab)"
  by (simp add: Error_def overWarning_def intLogf_def dispatchLogsForSourceAndMessage_def Let_def
        go_extra_def go_flag_def caller_source_def go_env_def logger_ab_def AddFilter_def NewLogger_def
        DEBUG_def ERROR_def)

theorem overWarning_returns_message_witness:
  "error_Error (fst (Error (go_env [''a'', ''b'']) (VString ''disk %v'') [VOther ''int'' ''9'']
       logger_ab)) = ''disk 9'' \<and>
   map Message (written (fst (snd (Error (go_env [''a'', ''b'']) (VString ''disk %v'')
       [VOther ''int'' ''9''] logger_ab)))) = [''disk 9'', ''disk 9'']"
proof -
  have m: "(Error :: env \<Rightarrow> val \<Rightarrow> val list \<Rightarrow> nat Logger \<Rightarrow> error \<times> nat event list \<times> nat Logger)
             = Warn
           \<or> (Error :: env \<Rightarrow> val \<Rightarrow> val list \<Rightarrow> nat Logger \<Rightarrow> error \<times> nat event list \<times> nat Logger)
             = Error
           \<or> (Error :: env \<Rightarrow> val \<Rightarrow> val list \<Rightarrow> nat Logger \<Rightarrow> error \<times> nat event list \<times> nat Logger)
             = Critical"
    by simp
  show ?thesis
    using overWarning_returns_message [OF m, of "go_env [''a'', ''b'']" "''disk %v''"
        "[VOther ''int'' ''9'']" logger_ab _ _ _ "VString ''disk %v''"]
    by (simp add: Error_example)
qed

text \<open>
  C10. Let \<open>f\<close> be a call with a format and no further arguments of \<^verbatim>\<open>intLogf\<close>, of
  \<^verbatim>\<open>Logf\<close>, of \<^verbatim>\<open>upToInfo\<close> or of one of \<^verbatim>\<open>Finest\<close>, \<^verbatim>\<open>Fine\<close>, \<^verbatim>\<open>Debug\<close>, \<^verbatim>\<open>Trace\<close>, \<^verbatim>\<open>Info\<close>
  at its level. It calls no \<^verbatim>\<open>fmt.Sprintf\<close>; every record it writes carries the format as
  it is, whatever \<^verbatim>\<open>fmt.Sprintf\<close> would make of it; and every filter whose threshold is
  at or below the level gets exactly one call of \<^verbatim>\<open>LogWrite\<close>, with the record whose
  message is the format, every other filter none. \<^verbatim>\<open>Warn\<close>, \<^verbatim>\<open>Error\<close> and \<^verbatim>\<open>Critical\<close> call
  \<^verbatim>\<open>fmt.Sprintf\<close> at most once, to build the message; the records they write carry that
  message, the text of the returned error, unchanged, and every filter whose threshold
  is at or below their level gets exactly one such record.
\<close>

theorem intLogf_without_args_is_verbatim:
  assumes "f = intLogf e lvl format [] \<or> f = Logf e lvl format [] \<or>
           f = upToInfo e lvl (VString format) [] \<or>
           (lvl = FINEST \<and> f = Finest e (VString format) []) \<or>
           (lvl = FINE \<and> f = Fine e (VString format) []) \<or>
           (lvl = DEBUG \<and> f = Debug e (VString format) []) \<or>
           (lvl = TRACE \<and> f = Trace e (VString format) []) \<or>
           (lvl = INFO \<and> f = Info e (VString format) [])"
    and "(m, l) = (Warn, WARNING) \<or> (m, l) = (Error, ERROR) \<or> (m, l) = (Critical, CRITICAL)"
  shows "filter is_Sprintf (fst (f log)) = [] \<and>
         (\<forall>rec \<in> set (written (fst (f log))). Message rec = format) \<and>
         (ranges e log \<longrightarrow>
            (\<forall>name filt. Filters log name = Some filt \<longrightarrow>
               filter (on_filter name) (fst (f log)) =
                 (if Level filt \<le> lvl
                  then [LogWrite name (LogWriter filt)
                          \<lparr>RecLevel = lvl, Created = time_Now e, Source = caller_source e 3,
                           Message = format\<rparr>]
                  else []))) \<and>
         length (filter is_Sprintf (fst (snd (m e arg0 args log)))) \<le> 1 \<and>
         (\<forall>rec \<in> set (written (fst (snd (m e arg0 args log)))).
            Message rec = error_Error (fst (m e arg0 args log))) \<and>
         (ranges e log \<longrightarrow>
            (\<forall>name filt. Filters log name = Some filt \<longrightarrow>
               filter (on_filter name) (fst (snd (m e arg0 args log))) =
                 (if Level filt \<le> l
                  then [LogWrite name (LogWriter filt)
                          \<lparr>RecLevel = l, Created = time_Now e, Source = caller_source e 3,
                           Message = error_Error (fst (m e arg0 args log))\<rparr>]
                  else [])))"
proof -
  have f: "f log = intLogf e lvl format [] log"
    using assms(1)
    by (auto simp: Logf_def upToInfo_def Finest_def Fine_def Debug_def Trace_def Info_def)
  have m: "m = (\<lambda>e arg0 args log. overWarning e l arg0 args log)"
    using assms(2) unfolding Warn_def Error_def Critical_def fun_eq_iff by auto
  have a: "filter is_Sprintf (fst (intLogf e lvl format [] log)) = []"
    by (simp add: intLogf_fst dispatch_filter_none)
  have b: "\<forall>rec \<in> set (written (fst (intLogf e lvl format [] log))). Message rec = format"
    using intLogf_written[of e lvl format "[]" log] by auto
  have c: "filter (on_filter name) (fst (intLogf e lvl format [] log)) =
             (if Level filt \<le> lvl
              then [LogWrite name (LogWriter filt)
                      \<lparr>RecLevel = lvl, Created = time_Now e, Source = caller_source e 3,
                       Message = format\<rparr>]
              else [])"
    if "ranges e log" "Filters log name = Some filt" for name filt
    using intLogf_on_filter[OF that, of lvl format "[]"] by simp
  show ?thesis
    unfolding m f
    using a b c Sprintf_overWarning[of e l arg0 args log]
      overWarning_Message[of _ e l arg0 args log]
      overWarning_on_filter[of e log _ _ l arg0 args]
    by simp
qed

lemma intLogf_percent_example:
  "intLogf (go_env [''a'', ''b'']) WARNING ''100%'' [] logger_ab =
     ([RLock, Caller 3, Now,
       LogWrite ''a'' 1
         \<lparr>RecLevel = WARNING, Created = 7, Source = ''main.main:42'', Message = ''100%''\<rparr>,
       RUnlock], logger_ab)"
  by (simp add: intLogf_def dispatchLogsForSourceAndMessage_def Let_def caller_source_def
        go_env_def logger_ab_def AddFilter_def NewLogger_def DEBUG_def ERROR_def WARNING_def)

lemma Info_percent_example:
  "Info (go_env [''a'', ''b'']) (VString ''100%'') [] logger_ab =
     ([RLock, Caller 3, Now,
       LogWrite ''a'' 1
         \<lparr>RecLevel = INFO, Created = 7, Source = ''main.main:42'', Message = ''100%''\<rparr>,
       RUnlock], logger_ab)"
  by (simp add: Info_def upToInfo_def intLogf_def dispatchLogsForSourceAndMessage_def Let_def
        caller_source_def go_env_def logger_ab_def AddFilter_def NewLogger_def DEBUG_def
        ERROR_def INFO_def)

lemma Warn_percent_example:
  "Warn (go_env [''a'', ''b'']) (VString ''100%%'') [] logger_ab =
     (errors_New ''100%'',
      [Sprintf ''100%%'' [], RLock, Caller 3, Now,
       LogWrite ''a'' 1
         \<lparr>RecLevel = WARNING, Created = 7, Source = ''main.main:42'', Message = ''100%''\<rparr>,
       RUnlock], logger_ab)"
  by (simp add: Warn_def overWarning_def intLogf_def dispatchLogsForSourceAndMessage_def Let_def
        go_extra_def go_flag_def caller_source_def go_env_def logger_ab_def AddFilter_def
        NewLogger_def DEBUG_def ERROR_def WARNING_def)

text \<open>
  A format and a message that end in a percent sign, on the logger with a at DEBUG and
  b at ERROR: \<^verbatim>\<open>intLogf\<close> at WARNING and \<^verbatim>\<open>Info\<close> write the format \<^verbatim>\<open>100%\<close> to a as it is,
  and \<^verbatim>\<open>Warn("100%%")\<close> writes \<^verbatim>\<open>100%\<close> to a and returns it; b gets nothing.
\<close>

theorem intLogf_without_args_is_verbatim_witness:
  "ranges (go_env [''a'', ''b'']) logger_ab \<and>
   Filters logger_ab ''a'' = Some \<lparr>Level = DEBUG, LogWriter = 1\<rparr> \<and>
   Filters logger_ab ''b'' = Some \<lparr>Level = ERROR, LogWriter = 2\<rparr> \<and>
   filter is_Sprintf (fst (intLogf (go_env [''a'', ''b'']) WARNING ''100%'' [] logger_ab)) = [] \<and>
   map Message (written (fst (intLogf (go_env [''a'', ''b'']) WARNING ''100%'' [] logger_ab))) =
     [''100%''] \<and>
   filter (on_filter ''a'') (fst (intLogf (go_env [''a'', ''b'']) WARNING ''100%'' [] logger_ab)) =
     [LogWrite ''a'' 1
        \<lparr>RecLevel = WARNING, Created = 7, Source = ''main.main:42'', Message = ''100%''\<rparr>] \<and>
   filter (on_filter ''b'') (fst (intLogf (go_env [''a'', ''b'']) WARNING ''100%'' [] logger_ab)) =
     [] \<and>
   filter (on_filter ''a'') (fst (Info (go_env [''a'', ''b'']) (VString ''100%'') [] logger_ab)) =
     [LogWrite ''a'' 1
        \<lparr>RecLevel = INFO, Created = 7, Source = ''main.main:42'', Message = ''100%''\<rparr>] \<and>
   error_Error (fst (Warn (go_env [''a'', ''b'']) (VString ''100%%'') [] logger_ab)) = ''100%'' \<and>
   filter (on_filter ''a'') (fst (snd (Warn (go_env [''a'', ''b'']) (VString ''100%%'') []
       logger_ab))) =
     [LogWrite ''a'' 1
        \<lparr>RecLevel = WARNING, Created = 7, Source = ''main.main:42'', Message = ''100%''\<rparr>]"
proof -
  have h: "ranges (go_env [''a'', ''b'']) logger_ab"
    by (auto simp: ranges_def range_of_def go_env_def logger_ab_def AddFilter_def NewLogger_def)
  have fa: "Filters logger_ab ''a'' = Some \<lparr>Level = DEBUG, LogWriter = 1\<rparr>"
    and fb: "Filters logger_ab ''b'' = Some \<lparr>Level = ERROR, LogWriter = 2\<rparr>"
    by (simp_all add: logger_ab_def AddFilter_def NewLogger_def)
  show ?thesis
    using h fa fb
      intLogf_without_args_is_verbatim [of "intLogf (go_env [''a'', ''b'']) WARNING ''100%'' []"
        "go_env [''a'', ''b'']" WARNING "''100%''" Warn WARNING logger_ab "VString ''100%%''" "[]"]
      intLogf_without_args_is_verbatim [of "Info (go_env [''a'', ''b'']) (VString ''100%'') []"
        "go_env [''a'', ''b'']" INFO "''100%''" Warn WARNING logger_ab "VString ''100%%''" "[]"]
    by (simp add: intLogf_percent_example Info_percent_example Warn_percent_example)
qed

section \<open>A first argument that is neither a string nor a closure\<close>

text \<open>
  With Go's \<^verbatim>\<open>fmt\<close>, and a first argument whose rendering has no percent sign, the
  message is the one the documentation of \<^verbatim>\<open>Debug\<close> describes: the arguments in their
  default format, separated by spaces. Without further arguments \<^verbatim>\<open>upToInfo\<close> writes the
  rendering as it is, percent signs or not.
\<close>

lemma overWarning_joined:
  assumes "fmt_Sprintf e = go_Sprintf other" and "fmt_Sprint e = go_Sprint"
    and "arg0 = VNil \<or> arg0 = VOther t r" and "CHR ''%'' \<notin> set (go_Sprint arg0)"
  shows "error_Error (fst (overWarning e lvl arg0 args log)) = joined e arg0 args"
  using assms(3) go_Sprintf_joined[OF assms(1,2,4), of args]
  by (auto simp: overWarning_error)

lemma upToInfo_written:
  assumes "arg0 = VNil \<or> arg0 = VOther t r"
  shows "set (written (fst (upToInfo e lvl arg0 args log))) \<subseteq>
     {\<lparr>RecLevel = lvl, Created = time_Now e, Source = caller_source e 3,
       Message = (if args = [] then fmt_Sprint e arg0
                  else fmt_Sprintf e (fmt_Sprint e arg0 @ strings_Repeat '' %v'' (length args)) args)\<rparr>}"
  using assms
    intLogf_written[of e lvl "fmt_Sprint e arg0 @ strings_Repeat '' %v'' (length args)" args log]
  by (auto simp: upToInfo_def case_prod_beta strings_Repeat_def)

lemma upToInfo_joined:
  assumes "fmt_Sprintf e = go_Sprintf other" and "fmt_Sprint e = go_Sprint"
    and "arg0 = VNil \<or> arg0 = VOther t r" and "CHR ''%'' \<notin> set (go_Sprint arg0) \<or> args = []"
  shows "set (written (fst (upToInfo e lvl arg0 args log))) \<subseteq>
     {\<lparr>RecLevel = lvl, Created = time_Now e, Source = caller_source e 3,
       Message = joined e arg0 args\<rparr>}"
proof (cases "args = []")
  case True
  then show ?thesis using upToInfo_written[OF assms(3), of e lvl args log] by (simp add: joined_def)
next
  case False
  then have "CHR ''%'' \<notin> set (go_Sprint arg0)" using assms(4) by simp
  from go_Sprintf_joined[OF assms(1,2) this, of args] False
  show ?thesis using upToInfo_written[OF assms(3), of e lvl args log] by simp
qed

text \<open>
  C5, at \<^verbatim>\<open>Warn(errors.New("100%"))\<close>. The first argument renders as \<^verbatim>\<open>100%\<close>, and that
  is the message of the claim. \<^verbatim>\<open>overWarning\<close> uses the rendering as a format:
  \<^verbatim>\<open>fmt.Sprintf("100%")\<close> reads the percent sign as a directive without a verb, and the
  message written and returned is \<^verbatim>\<open>100%!(NOVERB)\<close>.
\<close>

theorem Warn_percent_in_first_argument:
  "joined (go_env [''a'', ''b'']) (VOther ''*errors.errorString'' ''100%'') [] = ''100%'' \<and>
   Warn (go_env [''a'', ''b'']) (VOther ''*errors.errorString'' ''100%'') [] logger_ab =
     (errors_New ''100%!(NOVERB)'',
      [Sprint (VOther ''*errors.errorString'' ''100%''), Sprintf ''100%'' [],
       RLock, Caller 3, Now,
       LogWrite ''a'' 1
         \<lparr>RecLevel = WARNING, Created = 7, Source = ''main.main:42'', Message = ''100%!(NOVERB)''\<rparr>,
       RUnlock], logger_ab)"
  by (simp add: joined_def Warn_def overWarning_def intLogf_def dispatchLogsForSourceAndMessage_def
        Let_def strings_Repeat_def go_extra_def go_flag_def caller_source_def go_env_def logger_ab_def
        AddFilter_def NewLogger_def DEBUG_def ERROR_def WARNING_def)

text \<open>
  With a further argument the percent sign of the rendering takes the space and the
  percent sign of the first \<^verbatim>\<open>%v\<close> as its flag and verb: \<^verbatim>\<open>Info(errors.New("100%"), 5)\<close>
  writes \<^verbatim>\<open>100%v%!(EXTRA int=5)\<close>, where the joined text is \<^verbatim>\<open>100% 5\<close>.
\<close>

lemma Info_percent_in_first_argument:
  "joined (go_env [''a'', ''b'']) (VOther ''*errors.errorString'' ''100%'') [VOther ''int'' ''5''] =
     ''100% 5'' \<and>
   Info (go_env [''a'', ''b'']) (VOther ''*errors.errorString'' ''100%'') [VOther ''int'' ''5'']
       logger_ab =
     ([Sprint (VOther ''*errors.errorString'' ''100%''),
       RLock, Caller 3, Sprintf ''100% %v'' [VOther ''int'' ''5''], Now,
       LogWrite ''a'' 1
         \<lparr>RecLevel = INFO, Created = 7, Source = ''main.main:42'',
          Message = ''100%v%!(EXTRA int=5)''\<rparr>,
       RUnlock], logger_ab)"
  by (simp add: joined_def Info_def upToInfo_def intLogf_def dispatchLogsForSourceAndMessage_def
        Let_def strings_Repeat_def go_extra_def go_flag_def caller_source_def go_env_def
        logger_ab_def AddFilter_def NewLogger_def DEBUG_def ERROR_def INFO_def)

section \<open>Close, AddFilter, and what logging leaves alone\<close>

text \<open>
  C7. \<^verbatim>\<open>Close\<close> leaves the map empty and calls \<^verbatim>\<open>Close\<close> once on the writer of every
  filter that was in it. On the closed logger a call of \<^verbatim>\<open>Log\<close>, at any level and in any
  environment, takes and releases the read lock and does nothing else: no record
  reaches a writer, and the logger stays closed for the calls that follow.
\<close>

theorem Close_closes_all_then_Log_writes_nothing:
  assumes "range_of names log"
  shows "Filters (snd (Close names log)) = Map.empty \<and>
         (\<forall>name filt. Filters log name = Some filt \<longrightarrow>
            length (filter (\<lambda>ev. ev = CloseWriter name (LogWriter filt))
              (fst (Close names log))) = 1) \<and>
         Log e lvl source message (snd (Close names log)) =
           ([RLock, RUnlock], snd (Close names log)) \<and>
         written (fst (Log e lvl source message (snd (Close names log)))) = []"
proof -
  have dom: "set names = dom (Filters log)"
    using assms by (simp add: range_of_def)
  have empty: "Filters (snd (Close names log)) = Map.empty"
    using dom by (auto simp: Close_snd Close_loop_filters fun_eq_iff)
  have closes: "length (filter (\<lambda>ev. ev = CloseWriter name (LogWriter filt))
              (fst (Close names log))) = 1" if "Filters log name = Some filt" for name filt
  proof -
    have "name \<in> set names" using that dom by auto
    from Close_loop_count[OF this that] show ?thesis by (simp add: Close_fst)
  qed
  have noop: "Log e lvl source message (snd (Close names log)) =
           ([RLock, RUnlock], snd (Close names log))"
    by (simp add: Log_def shouldSkip_empty[OF empty])
  show ?thesis using empty closes noop by simp
qed

theorem Close_closes_all_then_Log_writes_nothing_witness:
  "range_of [''b'', ''a''] logger_ab \<and>
   Filters logger_ab ''a'' = Some \<lparr>Level = DEBUG, LogWriter = 1\<rparr> \<and>
   Filters (snd (Close [''b'', ''a''] logger_ab)) = Map.empty \<and>
   length (filter (\<lambda>ev. ev = CloseWriter ''a'' 1) (fst (Close [''b'', ''a''] logger_ab))) = 1 \<and>
   Log (go_env []) CRITICAL ''main'' ''late'' (snd (Close [''b'', ''a''] logger_ab)) =
     ([RLock, RUnlock], snd (Close [''b'', ''a''] logger_ab))"
proof -
  have h: "range_of [''b'', ''a''] logger_ab"
    by (auto simp: range_of_def logger_ab_def AddFilter_def NewLogger_def)
  have f: "Filters logger_ab ''a'' = Some \<lparr>Level = DEBUG, LogWriter = 1\<rparr>"
    by (simp add: logger_ab_def AddFilter_def NewLogger_def)
  show ?thesis
    using h f
      Close_closes_all_then_Log_writes_nothing [OF h, of "go_env []" CRITICAL "''main''" "''late''"]
    by fastforce
qed

lemma Close_example:
  "fst (Close [''b'', ''a''] logger_ab) = [Lock, CloseWriter ''b'' 2, CloseWriter ''a'' 1, Unlock]"
  by (simp add: Close_def logger_ab_def AddFilter_def NewLogger_def)

text \<open>
  C8. Two calls of \<^verbatim>\<open>AddFilter\<close> with the same name leave what the second call alone
  would leave: under the name, the level and the writer of the second call, and no key
  beyond the name and those the logger had. Neither call calls \<^verbatim>\<open>Close\<close> on a writer, or
  anything else.
\<close>

theorem AddFilter_twice_replaces:
  "snd (AddFilter name lvl2 w2 (snd (AddFilter name lvl1 w1 log))) =
     snd (AddFilter name lvl2 w2 log) \<and>
   Filters (snd (AddFilter name lvl2 w2 (snd (AddFilter name lvl1 w1 log)))) name =
     Some \<lparr>Level = lvl2, LogWriter = w2\<rparr> \<and>
   dom (Filters (snd (AddFilter name lvl2 w2 (snd (AddFilter name lvl1 w1 log))))) =
     insert name (dom (Filters log)) \<and>
   fst (AddFilter name lvl1 w1 log) = [] \<and>
   fst (AddFilter name lvl2 w2 (snd (AddFilter name lvl1 w1 log))) = []"
  by (simp add: AddFilter_def)

theorem AddFilter_twice_replaces_witness:
  "Filters (snd (AddFilter ''a'' ERROR 3 (snd (AddFilter ''a'' DEBUG (1::nat) NewLogger)))) ''a'' =
     Some \<lparr>Level = ERROR, LogWriter = 3\<rparr> \<and>
   dom (Filters (snd (AddFilter ''a'' ERROR 3 (snd (AddFilter ''a'' DEBUG (1::nat) NewLogger))))) =
     {''a''} \<and>
   fst (AddFilter ''a'' ERROR 3 (snd (AddFilter ''a'' DEBUG (1::nat) NewLogger))) = []"
  using AddFilter_twice_replaces [of "''a''" ERROR "3::nat" DEBUG 1 NewLogger]
  by (simp add: NewLogger_def AddFilter_def)

text \<open>
  C9. \<^verbatim>\<open>Log\<close>, \<^verbatim>\<open>Logf\<close> and \<^verbatim>\<open>Logc\<close> leave the map of the logger as it was, at any level,
  with any arguments, in any environment.
\<close>

theorem logging_leaves_Filters:
  "Filters (snd (Log e lvl source message log)) = Filters log \<and>
   Filters (snd (Logf e lvl format args log)) = Filters log \<and>
   Filters (snd (Logc e lvl closure log)) = Filters log"
  by (simp add: Log_snd Logf_def Logc_def intLogf_snd intLogc_snd)

theorem logging_leaves_Filters_witness:
  "Filters (snd (Log (go_env [''a'', ''b'']) CRITICAL ''main'' ''m'' logger_ab)) = Filters logger_ab \<and>
   Filters (snd (Logf (go_env [''a'', ''b'']) CRITICAL ''%v'' [VNil] logger_ab)) = Filters logger_ab \<and>
   Filters (snd (Logc (go_env [''a'', ''b'']) CRITICAL (Closure ''0x47b260'' ''m'') logger_ab)) =
     Filters logger_ab"
  using logging_leaves_Filters [of "go_env [''a'', ''b'']" CRITICAL "''main''" "''m''" logger_ab
      "''%v''" "[VNil]" "Closure ''0x47b260'' ''m''"]
  by simp

end
